theory Spec2Isabelle
  imports Main "HOL-Library.Word"
begin

unbundle bit_operations_syntax

section \<open>Data model of bs83bdis.py\<close>

text \<open>
  The disassembler works on 16-bit code words (the values produced by
  \<^verbatim>\<open>struct.unpack('<%dH')\<close>), on code addresses and operands, which are Python
  integers, and on text. A raised \<^verbatim>\<open>Exception\<close> is a value carrying the message;
  the two failures Python itself can raise in the formatter (a missing dictionary key,
  formatting \<^verbatim>\<open>None\<close> as a number) are values as well.
\<close>

definition CODE_ADDRESS_START :: int where
  "CODE_ADDRESS_START = 0x0000"

definition CODE_ADDRESS_END :: int where
  "CODE_ADDRESS_END = 0x07FF"

definition CODE_FILE_MAX_SIZE :: nat where
  "CODE_FILE_MAX_SIZE = 0x1000"

datatype Format = SPECIAL | M2A | A2M | LITERAL | ADDRESS | BIT | MEMORY | INVALID

datatype error = Exception string | KeyError "int option" | TypeError

record Instruction =
  address :: int
  word :: "16 word"
  first :: "int option"
  second :: "int option"
  type :: Format
  name :: "string option"

subsection \<open>Text formatting used by the program\<close>

definition hex_digit :: "nat \<Rightarrow> char" where
  "hex_digit d = ''0123456789ABCDEF'' ! d"

text \<open>The digits of a natural number in base 16 (upper case), 10 and 2, most significant first.\<close>

fun to_hex :: "nat \<Rightarrow> string" where
  "to_hex n = (if n < 16 then [hex_digit n] else to_hex (n div 16) @ [hex_digit (n mod 16)])"

fun to_dec :: "nat \<Rightarrow> string" where
  "to_dec n = (if n < 10 then [hex_digit n] else to_dec (n div 10) @ [hex_digit (n mod 10)])"

fun to_bin :: "nat \<Rightarrow> string" where
  "to_bin n = (if n < 2 then [hex_digit n] else to_bin (n div 2) @ [hex_digit (n mod 2)])"

declare to_hex.simps [simp del] to_dec.simps [simp del] to_bin.simps [simp del]

text \<open>\<^verbatim>\<open>str.zfill(width)\<close> on a string of digits.\<close>

definition zfill :: "nat \<Rightarrow> string \<Rightarrow> string" where
  "zfill width s = replicate (width - length s) (CHR ''0'') @ s"

text \<open>\<^verbatim>\<open>'%0<width>X' % n\<close>: the sign counts towards the width.\<close>

definition format_X :: "nat \<Rightarrow> int \<Rightarrow> string" where
  "format_X width n =
     (if n < 0 then ''-'' @ zfill (width - 1) (to_hex (nat (- n)))
      else zfill width (to_hex (nat n)))"

text \<open>\<^verbatim>\<open>'%d' % n\<close>.\<close>

definition format_d :: "int \<Rightarrow> string" where
  "format_d n = (if n < 0 then ''-'' @ to_dec (nat (- n)) else to_dec (nat n))"

text \<open>
  \<^verbatim>\<open>str.strip()\<close>: leading and trailing white space removed. The white space is
  that of the ASCII range; the tables of the program hold ASCII names only.
\<close>

definition isspace :: "char \<Rightarrow> bool" where
  "isspace c =
     (let k = (of_char c :: nat) in k = 32 \<or> (9 \<le> k \<and> k \<le> 13) \<or> (28 \<le> k \<and> k \<le> 31))"

definition strip :: "string \<Rightarrow> string" where
  "strip s = rev (dropWhile isspace (rev (dropWhile isspace s)))"

text \<open>Python's truth value of an optional string: \<^verbatim>\<open>None\<close> and \<^verbatim>\<open>''\<close> are false.\<close>

definition truthy :: "string option \<Rightarrow> bool" where
  "truthy s = (case s of None \<Rightarrow> False | Some t \<Rightarrow> t \<noteq> [])"

subsection \<open>Instruction\<close>

definition get_data_address :: "16 word \<Rightarrow> int" where
  "get_data_address w =
     uint (w AND 0x7F) + (if w AND push_bit 14 1 \<noteq> 0 then 0x80 else 0)"

definition get_bit :: "16 word \<Rightarrow> int" where
  "get_bit w = uint (drop_bit 7 w AND 7)"

text \<open>
  \<^verbatim>\<open>Instruction.__init__\<close>. The final \<^verbatim>\<open>else\<close> of the format dispatch (a value
  that is no member of \<^verbatim>\<open>Format\<close>) has no counterpart: \<^typ>\<open>Format\<close> has exactly
  the eight members. The operands \<^verbatim>\<open>first\<close> and \<^verbatim>\<open>second\<close> stay \<^verbatim>\<open>None\<close>
  where the format does not set them.
\<close>

definition operand_first :: "Format \<Rightarrow> 16 word \<Rightarrow> int option" where
  "operand_first opcode_type w =
     (case opcode_type of
        SPECIAL \<Rightarrow> None
      | M2A \<Rightarrow> Some (get_data_address w)
      | A2M \<Rightarrow> Some (get_data_address w)
      | LITERAL \<Rightarrow> Some (uint (w AND 0xFF))
      | ADDRESS \<Rightarrow> Some (uint (w AND 0x7FF))
      | BIT \<Rightarrow> Some (get_data_address w)
      | MEMORY \<Rightarrow> Some (get_data_address w)
      | INVALID \<Rightarrow> None)"

definition operand_second :: "Format \<Rightarrow> 16 word \<Rightarrow> int option" where
  "operand_second opcode_type w = (case opcode_type of BIT \<Rightarrow> Some (get_bit w) | _ \<Rightarrow> None)"

definition stripped_name :: "string option \<Rightarrow> string option" where
  "stripped_name opcode_name = (if truthy opcode_name then map_option strip opcode_name else None)"

definition Instruction_init ::
  "int \<Rightarrow> string option \<Rightarrow> Format \<Rightarrow> 16 word \<Rightarrow> error + Instruction" where
  "Instruction_init addr opcode_name opcode_type w =
     (if addr < CODE_ADDRESS_START \<or> addr > CODE_ADDRESS_END
      then Inl (Exception (''Address 0x'' @ format_X 4 addr @ '' out of range''))
      else if opcode_type \<noteq> INVALID \<and> \<not> truthy (stripped_name opcode_name)
      then Inl (Exception ''Invalid or missing opcode name'')
      else Inr \<lparr>address = addr, word = w,
                first = operand_first opcode_type w, second = operand_second opcode_type w,
                type = opcode_type, name = stripped_name opcode_name\<rparr>)"

subsection \<open>Opcode tables\<close>

text \<open>
  A dictionary literal is an association list in the order of the source;
  \<^verbatim>\<open>dict.get(key, None)\<close> is \<^const>\<open>map_of\<close>.
\<close>

definition SPECIAL_MASK :: "16 word" where "SPECIAL_MASK = 0b1111111111111000"
definition SPECIAL_MARK :: "16 word" where "SPECIAL_MARK = 0b0000000000000000"
definition SPECIAL_LIST :: "16 word" where "SPECIAL_LIST = 0b0000000000000111"
definition SPECIAL_OPCODES :: "(16 word \<times> string) list" where
  "SPECIAL_OPCODES = [
     (0b0000000000000000, ''NOP''),
     (0b0000000000000001, ''CLR WDT1''),
     (0b0000000000000010, ''HALT''),
     (0b0000000000000011, ''RET''),
     (0b0000000000000100, ''RETI''),
     (0b0000000000000101, ''CLR WDT2'')]"

definition BIT_MASK :: "16 word" where "BIT_MASK = 0b1011000000000000"
definition BIT_MARK :: "16 word" where "BIT_MARK = 0b0011000000000000"
definition BIT_LIST :: "16 word" where "BIT_LIST = 0b0011110000000000"
definition BIT_OPCODES :: "(16 word \<times> string) list" where
  "BIT_OPCODES = [
     (0b0011000000000000, ''SET''),
     (0b0011010000000000, ''CLR''),
     (0b0011100000000000, ''SNZ''),
     (0b0011110000000000, ''SZ'')]"

definition ADDRESS_MASK :: "16 word" where "ADDRESS_MASK = 0b1111000000000000"
definition ADDRESS_MARK :: "16 word" where "ADDRESS_MARK = 0b0010000000000000"
definition ADDRESS_LIST :: "16 word" where "ADDRESS_LIST = 0b1111100000000000"
definition ADDRESS_OPCODES :: "(16 word \<times> string) list" where
  "ADDRESS_OPCODES = [
     (0b0010000000000000, ''CALL''),
     (0b0010100000000000, ''JMP'')]"

definition LITERAL_MASK :: "16 word" where "LITERAL_MASK = 0b1000100000000000"
definition LITERAL_MARK :: "16 word" where "LITERAL_MARK = 0b0000100000000000"
definition LITERAL_LIST :: "16 word" where "LITERAL_LIST = 0b0000111100000000"
definition LITERAL_OPCODES :: "(16 word \<times> string) list" where
  "LITERAL_OPCODES = [
     (0b0000100100000000, ''RET''),
     (0b0000101000000000, ''SUB''),
     (0b0000101100000000, ''ADD''),
     (0b0000110000000000, ''XOR''),
     (0b0000110100000000, ''OR''),
     (0b0000111000000000, ''AND''),
     (0b0000111100000000, ''MOV'')]"

definition M2A_MASK :: "16 word" where "M2A_MASK = 0b1001111110000000"
definition M2A_MARK :: "16 word" where "M2A_MARK = 0b0000000010000000"
definition M2A_LIST :: "16 word" where "M2A_LIST = 0b0001111110000000"
definition M2A_OPCODES :: "(16 word \<times> string) list" where
  "M2A_OPCODES = [
     (0b0000000010000000, ''MOV'')]"

definition OTHER_OPCODES_MASK :: "16 word" where "OTHER_OPCODES_MASK = 0b1001111110000000"
definition OTHER_OPCODES :: "(16 word \<times> Format \<times> string) list" where
  "OTHER_OPCODES = [
     (0b0000000010000000, (M2A, ''MOV'')),
     (0b0000000100000000, (MEMORY, ''CPLA'')),
     (0b0000000110000000, (MEMORY, ''CPL'')),
     (0b0000001000000000, (A2M, ''SUB'')),
     (0b0000001010000000, (A2M, ''SUBM'')),
     (0b0000001100000000, (A2M, ''ADD'')),
     (0b0000001110000000, (A2M, ''ADDM'')),
     (0b0000010000000000, (A2M, ''XOR'')),
     (0b0000010010000000, (A2M, ''XORM'')),
     (0b0000010100000000, (A2M, ''OR'')),
     (0b0000010110000000, (A2M, ''ORM'')),
     (0b0000011000000000, (A2M, ''AND'')),
     (0b0000011010000000, (A2M, ''ANDM'')),
     (0b0000011100000000, (A2M, ''MOV'')),
     (0b0001000000000000, (MEMORY, ''SZA'')),
     (0b0001000010000000, (MEMORY, ''SZ'')),
     (0b0001000100000000, (MEMORY, ''SWAPA'')),
     (0b0001000110000000, (MEMORY, ''SWAP'')),
     (0b0001001000000000, (A2M, ''SBC'')),
     (0b0001001010000000, (A2M, ''SBCM'')),
     (0b0001001100000000, (A2M, ''ADC'')),
     (0b0001001110000000, (A2M, ''ADCM'')),
     (0b0001010000000000, (MEMORY, ''INCA'')),
     (0b0001010010000000, (MEMORY, ''INC'')),
     (0b0001010100000000, (MEMORY, ''DECA'')),
     (0b0001010110000000, (MEMORY, ''DEC'')),
     (0b0001011000000000, (MEMORY, ''SIZA'')),
     (0b0001011010000000, (MEMORY, ''SIZ'')),
     (0b0001011100000000, (MEMORY, ''SDZA'')),
     (0b0001011110000000, (MEMORY, ''SDZ'')),
     (0b0001100000000000, (MEMORY, ''RLA'')),
     (0b0001100010000000, (MEMORY, ''RL'')),
     (0b0001100100000000, (MEMORY, ''RRA'')),
     (0b0001100110000000, (MEMORY, ''RR'')),
     (0b0001101000000000, (MEMORY, ''RLCA'')),
     (0b0001101010000000, (MEMORY, ''RLC'')),
     (0b0001101100000000, (MEMORY, ''RRCA'')),
     (0b0001101110000000, (MEMORY, ''RRC'')),
     (0b0001110100000000, (MEMORY, ''TABRDC'')),
     (0b0001110110000000, (MEMORY, ''TABRDL'')),
     (0b0001111010000000, (MEMORY, ''DAA'')),
     (0b0001111100000000, (MEMORY, ''CLR'')),
     (0b0001111110000000, (MEMORY, ''SET''))]"

text \<open>
  \<^verbatim>\<open>_OTHER_OPCODES.get(opcode_word, (None, None))\<close>: the pair of the format and the
  name, each \<^verbatim>\<open>None\<close> when the key is absent.
\<close>

definition other_get :: "16 word \<Rightarrow> Format option \<times> string option" where
  "other_get opcode_word =
     (case map_of OTHER_OPCODES opcode_word of
        None \<Rightarrow> (None, None)
      | Some (opcode_type, opcode_name) \<Rightarrow> (Some opcode_type, Some opcode_name))"

subsection \<open>The decoder\<close>

text \<open>
  \<^verbatim>\<open>Disassembler._decode_word(self, address, word)\<close>. Each group is tried in the
  order of the source; a group whose lookup gives no (or an empty) name falls through
  to the next one.
\<close>

definition decode_word :: "int \<Rightarrow> 16 word \<Rightarrow> error + Instruction" where
  "decode_word addr w =
     (if w AND SPECIAL_MASK = SPECIAL_MARK
         \<and> truthy (map_of SPECIAL_OPCODES (w AND SPECIAL_LIST))
      then Instruction_init addr (map_of SPECIAL_OPCODES (w AND SPECIAL_LIST)) SPECIAL w
      else if w AND BIT_MASK = BIT_MARK
         \<and> truthy (map_of BIT_OPCODES (w AND BIT_LIST))
      then Instruction_init addr (map_of BIT_OPCODES (w AND BIT_LIST)) BIT w
      else if w AND ADDRESS_MASK = ADDRESS_MARK
         \<and> truthy (map_of ADDRESS_OPCODES (w AND ADDRESS_LIST))
      then Instruction_init addr (map_of ADDRESS_OPCODES (w AND ADDRESS_LIST)) ADDRESS w
      else
        (case other_get (w AND OTHER_OPCODES_MASK) of
           (Some opcode_type, Some opcode_name) \<Rightarrow>
             Instruction_init addr (Some opcode_name) opcode_type w
         | _ \<Rightarrow>
             if w AND LITERAL_MASK = LITERAL_MARK
                \<and> truthy (map_of LITERAL_OPCODES (w AND LITERAL_LIST))
             then Instruction_init addr (map_of LITERAL_OPCODES (w AND LITERAL_LIST)) LITERAL w
             else if w AND M2A_MASK = M2A_MARK
                \<and> truthy (map_of M2A_OPCODES (w AND M2A_LIST))
             then Instruction_init addr (map_of M2A_OPCODES (w AND M2A_LIST)) M2A w
             else Instruction_init addr None INVALID w))"

subsection \<open>Loading the code words\<close>

text \<open>
  What \<^verbatim>\<open>_load_binary_file\<close> sees of the file system: whether the path is a regular
  file, the size \<^verbatim>\<open>os.stat\<close> reports and the bytes \<^verbatim>\<open>source.read\<close> returns.
\<close>

record source_file =
  path :: string
  is_file :: bool
  st_size :: nat
  source_bytes :: "8 word list"

text \<open>\<^verbatim>\<open>struct.unpack('<nH', bytes)\<close> on \<open>2 * n\<close> bytes: little-endian 16-bit words.\<close>

fun unpack :: "8 word list \<Rightarrow> 16 word list" where
  "unpack (lo # hi # rest) = (ucast lo OR push_bit 8 (ucast hi)) # unpack rest"
| "unpack _ = []"

definition load_binary_file :: "source_file \<Rightarrow> error + 16 word list" where
  "load_binary_file f =
     (if \<not> is_file f then Inl (Exception (path f @ '' is not a file''))
      else if st_size f = 0 then Inl (Exception (path f @ '' does not contain any code''))
      else if st_size f mod 2 = 1 then Inl (Exception (path f @ '' is not word-aligned''))
      else if st_size f > CODE_FILE_MAX_SIZE
      then Inl (Exception (path f @ '' is too big to fit in the MCU memory''))
      else if length (source_bytes f) \<noteq> st_size f
      then Inl (Exception (''I/O error when reading '' @ path f))
      else Inr (unpack (source_bytes f)))"

subsection \<open>The disassembler\<close>

text \<open>
  The label table is a dictionary whose keys are the values of \<^verbatim>\<open>instruction.first\<close>
  (optional integers); \<^verbatim>\<open>address in self._labels\<close> asks for the key \<open>Some address\<close>.
\<close>

type_synonym label_table = "int option \<rightharpoonup> string"

record Disassembler =
  words :: "16 word list"
  code_address :: int
  instructions :: "Instruction list"
  labels :: label_table
  has_labels :: bool

text \<open>
  The list comprehension of \<^verbatim>\<open>__init__\<close> over \<^verbatim>\<open>enumerate(self._words)\<close>: the index
  is the address, and the first failing construction aborts the whole list.
\<close>

fun decode_words :: "int \<Rightarrow> 16 word list \<Rightarrow> error + Instruction list" where
  "decode_words addr [] = Inr []"
| "decode_words addr (w # ws) =
     (case decode_word addr w of
        Inl e \<Rightarrow> Inl e
      | Inr i \<Rightarrow> (case decode_words (addr + 1) ws of
                    Inl e \<Rightarrow> Inl e
                  | Inr is \<Rightarrow> Inr (i # is)))"

text \<open>
  \<^verbatim>\<open>_assign_labels\<close>: the loop carries the dictionary and the counter; the method
  starts the counter at 0 on whatever \<^verbatim>\<open>self._labels\<close> holds.
\<close>

fun assign_labels_loop :: "Instruction list \<Rightarrow> label_table \<Rightarrow> int \<Rightarrow> label_table" where
  "assign_labels_loop [] tbl counter = tbl"
| "assign_labels_loop (instruction # rest) tbl counter =
     (if type instruction = ADDRESS
      then (if first instruction \<in> dom tbl
            then assign_labels_loop rest tbl counter
            else assign_labels_loop rest
                   (tbl(first instruction \<mapsto> ''label'' @ format_X 4 counter)) (counter + 1))
      else assign_labels_loop rest tbl counter)"

definition assign_labels :: "Instruction list \<Rightarrow> label_table \<Rightarrow> label_table" where
  "assign_labels is tbl = assign_labels_loop is tbl 0"

definition Disassembler_init :: "source_file \<Rightarrow> bool \<Rightarrow> error + Disassembler" where
  "Disassembler_init input_path labels_enabled =
     (case load_binary_file input_path of
        Inl e \<Rightarrow> Inl e
      | Inr ws \<Rightarrow>
          (case decode_words 0 ws of
             Inl e \<Rightarrow> Inl e
           | Inr is \<Rightarrow>
               Inr \<lparr>words = ws, code_address = 0, instructions = is,
                    labels = (if labels_enabled then assign_labels is Map.empty else Map.empty),
                    has_labels = labels_enabled\<rparr>))"

subsection \<open>Formatting\<close>

definition MEMORY_MAP :: "string option list" where
  "MEMORY_MAP = [
     \<comment> \<open>00H\<close>
     Some ''IAR0'', Some ''MP0'', Some ''IAR1'', Some ''MP1'', Some ''BP'', Some ''ACC'', Some ''PCL'', Some ''TBLP'', Some ''TBLH'',
     Some ''TBHP'', Some ''STATUS'', Some ''SMOD'', Some ''CTRL'', Some ''INTEG'', Some ''INTC0'', Some ''INTC1'',
     \<comment> \<open>10H\<close>
     None, None, None, Some ''LVRC'', Some ''PA'', Some ''PAC'', Some ''PAPU'', Some ''PAWU'', None, None,
     Some ''WDTC'', Some ''TBC'', Some ''TMR'', Some ''TMRC'', Some ''EEA'', Some ''EED'', Some ''PB'',
     \<comment> \<open>20H\<close>
     Some ''PBC'', Some ''PBPU'',
     Some ''I2CTOC'', Some ''SIMC0'', Some ''SIMC1'', Some ''SIMD'', Some ''SIMC2'', None, None, None, None,
     None, None, None, None, None,
     \<comment> \<open>30H\<close>
     None, None, None, None, None, None, None, None, None, None, None, None,
     None, None, None, None,
     \<comment> \<open>40H\<close>
     None, None, None, Some ''TKTMR'', Some ''TKC0'', Some ''TK16DL'', Some ''TK16DH'', Some ''TKC1'',
     Some ''TKM016DL'', Some ''TKM016DH'', Some ''TKM0ROL'', Some ''TKM0ROH'', Some ''TKM0C0'', Some ''TKM0C1'',
     Some ''TKM116DL'', Some ''TKM116DH'',
     \<comment> \<open>50H\<close>
     Some ''TKM1ROL'', Some ''TKM1ROH'', Some ''TKM1C0'', Some ''TKM1C1'', None, None, None, None,
     None, None, None, None, None, None, None, None]"

definition newline :: string where
  "newline = [CHR 0x0A]"

definition tab :: string where
  "tab = [CHR 0x09]"

text \<open>\<^verbatim>\<open>'%s' % name\<close>: \<^verbatim>\<open>None\<close> prints as the word None.\<close>

definition format_s :: "string option \<Rightarrow> string" where
  "format_s s = (case s of None \<Rightarrow> ''None'' | Some t \<Rightarrow> t)"

text \<open>
  \<^verbatim>\<open>_lookup_memory_location\<close>. Comparing \<^verbatim>\<open>None\<close> with 0 raises a type error.
\<close>

definition lookup_memory_location :: "int option \<Rightarrow> error + string" where
  "lookup_memory_location location =
     (case location of
        None \<Rightarrow> Inl TypeError
      | Some l \<Rightarrow>
          if l < 0 then Inl (Exception (''Invalid memory location '' @ format_d l))
          else
            (case (if l < int (length MEMORY_MAP) then MEMORY_MAP ! nat l else None) of
               Some r \<Rightarrow> Inr (if r \<noteq> [] then r else ''[0'' @ format_X 2 l @ ''h]'')
             | None \<Rightarrow> Inr (''[0'' @ format_X 2 l @ ''h]'')))"

text \<open>
  The text \<^verbatim>\<open>_format_instruction\<close> writes after the address and the word, by format.
\<close>

definition format_operands :: "Disassembler \<Rightarrow> Instruction \<Rightarrow> error + string" where
  "format_operands d instruction =
     (case type instruction of
        SPECIAL \<Rightarrow> (case name instruction of None \<Rightarrow> Inl TypeError | Some n \<Rightarrow> Inr n)
      | M2A \<Rightarrow>
          (case lookup_memory_location (first instruction) of
             Inl e \<Rightarrow> Inl e
           | Inr target \<Rightarrow> Inr (format_s (name instruction) @ tab @ target @ '', A''))
      | A2M \<Rightarrow>
          (case lookup_memory_location (first instruction) of
             Inl e \<Rightarrow> Inl e
           | Inr target \<Rightarrow> Inr (format_s (name instruction) @ tab @ ''A, '' @ target))
      | LITERAL \<Rightarrow>
          (case first instruction of
             None \<Rightarrow> Inl TypeError
           | Some v \<Rightarrow> Inr (format_s (name instruction) @ tab @ ''A, 0'' @ format_X 2 v @ ''h''))
      | ADDRESS \<Rightarrow>
          (case (if has_labels d
                 then (case labels d (first instruction) of
                         None \<Rightarrow> Inl (KeyError (first instruction))
                       | Some l \<Rightarrow> Inr l)
                 else (case first instruction of
                         None \<Rightarrow> Inl TypeError
                       | Some v \<Rightarrow> Inr (''0'' @ format_X 4 v @ ''h''))) of
             Inl e \<Rightarrow> Inl e
           | Inr target \<Rightarrow> Inr (format_s (name instruction) @ tab @ target))
      | BIT \<Rightarrow>
          (case lookup_memory_location (first instruction) of
             Inl e \<Rightarrow> Inl e
           | Inr target \<Rightarrow>
               (case second instruction of
                  None \<Rightarrow> Inl TypeError
                | Some b \<Rightarrow> Inr (format_s (name instruction) @ tab @ target @ ''.'' @ format_d b)))
      | MEMORY \<Rightarrow>
          (case lookup_memory_location (first instruction) of
             Inl e \<Rightarrow> Inl e
           | Inr target \<Rightarrow> Inr (format_s (name instruction) @ tab @ target))
      | INVALID \<Rightarrow>
          Inr (''; ('' @ zfill 16 (to_bin (unat (word instruction))) @ '') Invalid opcode''))"

definition format_instruction :: "Disassembler \<Rightarrow> int \<Rightarrow> Instruction \<Rightarrow> error + string" where
  "format_instruction d addr instruction =
     (case format_operands d instruction of
        Inl e \<Rightarrow> Inl e
      | Inr text \<Rightarrow>
          Inr ((case labels d (Some addr) of
                  None \<Rightarrow> []
                | Some l \<Rightarrow> newline @ l @ '':'' @ newline @ newline)
               @ format_X 4 addr @ tab @ format_X 4 (uint (word instruction)) @ tab
               @ text @ newline))"

text \<open>\<^verbatim>\<open>generate_output\<close>: the lines of all instructions, in the order of the addresses.\<close>

fun generate_lines :: "Disassembler \<Rightarrow> int \<Rightarrow> Instruction list \<Rightarrow> error + string" where
  "generate_lines d addr [] = Inr []"
| "generate_lines d addr (instruction # rest) =
     (case format_instruction d addr instruction of
        Inl e \<Rightarrow> Inl e
      | Inr line \<Rightarrow> (case generate_lines d (addr + 1) rest of
                       Inl e \<Rightarrow> Inl e
                     | Inr lines \<Rightarrow> Inr (line @ lines)))"

definition generate_output :: "Disassembler \<Rightarrow> error + string" where
  "generate_output d = generate_lines d 0 (instructions d)"

text \<open>The main program without the final \<^verbatim>\<open>print\<close>: construct, then generate.\<close>

definition disassemble :: "source_file \<Rightarrow> bool \<Rightarrow> error + string" where
  "disassemble input_path labels_enabled =
     (case Disassembler_init input_path labels_enabled of
        Inl e \<Rightarrow> Inl e
      | Inr d \<Rightarrow> generate_output d)"

section \<open>The specification's reading of the decoder and of the label pass\<close>

text \<open>
  The decoder as the specification words it: six pattern groups, each a mask/mark test
  followed by a lookup in its table, tried in a fixed order; the first group that matches
  gives the format and the mnemonic, and a word that no group matches is invalid.
\<close>

definition special_group :: "16 word \<Rightarrow> (Format \<times> string) option" where
  "special_group w =
     (if w AND 0xFFF8 = 0x0000
      then map_option (Pair SPECIAL) (map_of SPECIAL_OPCODES (w AND 0x0007)) else None)"

definition bit_group :: "16 word \<Rightarrow> (Format \<times> string) option" where
  "bit_group w =
     (if w AND 0xB000 = 0x3000
      then map_option (Pair BIT) (map_of BIT_OPCODES (w AND 0x3C00)) else None)"

definition address_group :: "16 word \<Rightarrow> (Format \<times> string) option" where
  "address_group w =
     (if w AND 0xF000 = 0x2000
      then map_option (Pair ADDRESS) (map_of ADDRESS_OPCODES (w AND 0xF800)) else None)"

definition other_group :: "16 word \<Rightarrow> (Format \<times> string) option" where
  "other_group w = map_of OTHER_OPCODES (w AND 0x9F80)"

definition literal_group :: "16 word \<Rightarrow> (Format \<times> string) option" where
  "literal_group w =
     (if w AND 0x8800 = 0x0800
      then map_option (Pair LITERAL) (map_of LITERAL_OPCODES (w AND 0x0F00)) else None)"

definition m2a_group :: "16 word \<Rightarrow> (Format \<times> string) option" where
  "m2a_group w = (if w AND 0x9F80 = 0x0080 then Some (M2A, ''MOV'') else None)"

definition pattern_groups :: "(16 word \<Rightarrow> (Format \<times> string) option) list" where
  "pattern_groups =
     [special_group, bit_group, address_group, other_group, literal_group, m2a_group]"

fun first_match :: "('a \<Rightarrow> 'b option) list \<Rightarrow> 'a \<Rightarrow> 'b option" where
  "first_match [] w = None"
| "first_match (g # gs) w = (case g w of Some r \<Rightarrow> Some r | None \<Rightarrow> first_match gs w)"

definition decode_by_priority ::
  "(16 word \<Rightarrow> (Format \<times> string) option) list \<Rightarrow> int \<Rightarrow> 16 word \<Rightarrow> error + Instruction" where
  "decode_by_priority groups addr w =
     (case first_match groups w of
        Some (opcode_type, opcode_name) \<Rightarrow> Instruction_init addr (Some opcode_name) opcode_type w
      | None \<Rightarrow> Instruction_init addr None INVALID w)"

text \<open>
  The targets of the call and jump instructions of a program in the order of the
  addresses, and the distinct values of a list in the order of their first occurrence.
\<close>

definition targets :: "Instruction list \<Rightarrow> int option list" where
  "targets is = map first (filter (\<lambda>i. type i = ADDRESS) is)"

fun first_seen :: "'a list \<Rightarrow> 'a list" where
  "first_seen [] = []"
| "first_seen (x # xs) = x # first_seen (filter (\<lambda>y. y \<noteq> x) xs)"

text \<open>
  The decoder with its sixth step, the M2A group, taken out: the other steps are those
  of \<^const>\<open>decode_word\<close>, unchanged.
\<close>

definition decode_word_without_m2a :: "int \<Rightarrow> 16 word \<Rightarrow> error + Instruction" where
  "decode_word_without_m2a addr w =
     (if w AND SPECIAL_MASK = SPECIAL_MARK
         \<and> truthy (map_of SPECIAL_OPCODES (w AND SPECIAL_LIST))
      then Instruction_init addr (map_of SPECIAL_OPCODES (w AND SPECIAL_LIST)) SPECIAL w
      else if w AND BIT_MASK = BIT_MARK
         \<and> truthy (map_of BIT_OPCODES (w AND BIT_LIST))
      then Instruction_init addr (map_of BIT_OPCODES (w AND BIT_LIST)) BIT w
      else if w AND ADDRESS_MASK = ADDRESS_MARK
         \<and> truthy (map_of ADDRESS_OPCODES (w AND ADDRESS_LIST))
      then Instruction_init addr (map_of ADDRESS_OPCODES (w AND ADDRESS_LIST)) ADDRESS w
      else
        (case other_get (w AND OTHER_OPCODES_MASK) of
           (Some opcode_type, Some opcode_name) \<Rightarrow>
             Instruction_init addr (Some opcode_name) opcode_type w
         | _ \<Rightarrow>
             if w AND LITERAL_MASK = LITERAL_MARK
                \<and> truthy (map_of LITERAL_OPCODES (w AND LITERAL_LIST))
             then Instruction_init addr (map_of LITERAL_OPCODES (w AND LITERAL_LIST)) LITERAL w
             else Instruction_init addr None INVALID w))"

section \<open>The opcode tables\<close>

lemma special_names_mem:
  "(k, n) \<in> set SPECIAL_OPCODES \<Longrightarrow> n \<noteq> [] \<and> strip n = n"
  by (auto simp: SPECIAL_OPCODES_def strip_def isspace_def)

lemma special_names:
  "map_of SPECIAL_OPCODES k = Some n \<Longrightarrow> n \<noteq> [] \<and> strip n = n"
  by (rule special_names_mem [OF map_of_SomeD])

lemma bit_names_mem:
  "(k, n) \<in> set BIT_OPCODES \<Longrightarrow> n \<noteq> [] \<and> strip n = n"
  by (auto simp: BIT_OPCODES_def strip_def isspace_def)

lemma bit_names:
  "map_of BIT_OPCODES k = Some n \<Longrightarrow> n \<noteq> [] \<and> strip n = n"
  by (rule bit_names_mem [OF map_of_SomeD])

lemma address_names_mem:
  "(k, n) \<in> set ADDRESS_OPCODES \<Longrightarrow> n \<noteq> [] \<and> strip n = n"
  by (auto simp: ADDRESS_OPCODES_def strip_def isspace_def)

lemma address_names:
  "map_of ADDRESS_OPCODES k = Some n \<Longrightarrow> n \<noteq> [] \<and> strip n = n"
  by (rule address_names_mem [OF map_of_SomeD])

lemma literal_names_mem:
  "(k, n) \<in> set LITERAL_OPCODES \<Longrightarrow> n \<noteq> [] \<and> strip n = n"
  by (auto simp: LITERAL_OPCODES_def strip_def isspace_def)

lemma literal_names:
  "map_of LITERAL_OPCODES k = Some n \<Longrightarrow> n \<noteq> [] \<and> strip n = n"
  by (rule literal_names_mem [OF map_of_SomeD])

lemma m2a_names_mem:
  "(k, n) \<in> set M2A_OPCODES \<Longrightarrow> n \<noteq> [] \<and> strip n = n"
  by (auto simp: M2A_OPCODES_def strip_def isspace_def)

lemma m2a_names:
  "map_of M2A_OPCODES k = Some n \<Longrightarrow> n \<noteq> [] \<and> strip n = n"
  by (rule m2a_names_mem [OF map_of_SomeD])

lemma other_names_mem:
  "(k, t, n) \<in> set OTHER_OPCODES \<Longrightarrow> n \<noteq> [] \<and> strip n = n \<and> t \<in> {M2A, A2M, MEMORY}"
  by (auto simp: OTHER_OPCODES_def strip_def isspace_def)

lemma other_names:
  "map_of OTHER_OPCODES k = Some (t, n) \<Longrightarrow> n \<noteq> [] \<and> strip n = n \<and> t \<in> {M2A, A2M, MEMORY}"
  by (rule other_names_mem [OF map_of_SomeD])

lemma other_m2a: "map_of OTHER_OPCODES 0x0080 = Some (M2A, ''MOV'')"
  by (simp add: OTHER_OPCODES_def)

lemma m2a_lookup: "map_of M2A_OPCODES 0x0080 = Some ''MOV''"
  by (simp add: M2A_OPCODES_def)

lemma m2a_list: "(w :: 16 word) AND 0x9F80 = 0x0080 \<Longrightarrow> w AND 0x1F80 = 0x0080"
proof -
  assume h: "w AND 0x9F80 = 0x0080"
  have "w AND 0x1F80 = (w AND 0x9F80) AND 0x1F80"
    by (simp add: and.assoc)
  also have "\<dots> = 0x0080" by (simp add: h)
  finally show ?thesis .
qed


lemma truthy_special: "truthy (map_of SPECIAL_OPCODES k) = (map_of SPECIAL_OPCODES k \<noteq> None)"
  by (auto simp: truthy_def dest: special_names split: option.splits)

lemma truthy_bit: "truthy (map_of BIT_OPCODES k) = (map_of BIT_OPCODES k \<noteq> None)"
  by (auto simp: truthy_def dest: bit_names split: option.splits)

lemma truthy_address: "truthy (map_of ADDRESS_OPCODES k) = (map_of ADDRESS_OPCODES k \<noteq> None)"
  by (auto simp: truthy_def dest: address_names split: option.splits)

lemma truthy_literal: "truthy (map_of LITERAL_OPCODES k) = (map_of LITERAL_OPCODES k \<noteq> None)"
  by (auto simp: truthy_def dest: literal_names split: option.splits)

lemma truthy_m2a: "truthy (map_of M2A_OPCODES k) = (map_of M2A_OPCODES k \<noteq> None)"
  by (auto simp: truthy_def dest: m2a_names split: option.splits)

lemmas truthy_tables = truthy_special truthy_bit truthy_address truthy_literal truthy_m2a

lemmas mask_defs =
  SPECIAL_MASK_def SPECIAL_MARK_def SPECIAL_LIST_def BIT_MASK_def BIT_MARK_def BIT_LIST_def
  ADDRESS_MASK_def ADDRESS_MARK_def ADDRESS_LIST_def LITERAL_MASK_def LITERAL_MARK_def
  LITERAL_LIST_def M2A_MASK_def M2A_MARK_def M2A_LIST_def OTHER_OPCODES_MASK_def

lemmas group_defs =
  special_group_def bit_group_def address_group_def other_group_def literal_group_def
  m2a_group_def


lemma special_step:
  "(w AND SPECIAL_MASK = SPECIAL_MARK \<and> truthy (map_of SPECIAL_OPCODES (w AND SPECIAL_LIST)))
     = (special_group w \<noteq> None)"
  "special_group w = Some (t, n) \<Longrightarrow>
     t = SPECIAL \<and> map_of SPECIAL_OPCODES (w AND SPECIAL_LIST) = Some n"
  by (auto simp: special_group_def mask_defs truthy_special split: if_splits)

lemma bit_step:
  "(w AND BIT_MASK = BIT_MARK \<and> truthy (map_of BIT_OPCODES (w AND BIT_LIST)))
     = (bit_group w \<noteq> None)"
  "bit_group w = Some (t, n) \<Longrightarrow> t = BIT \<and> map_of BIT_OPCODES (w AND BIT_LIST) = Some n"
  by (auto simp: bit_group_def mask_defs truthy_bit split: if_splits)

lemma address_step:
  "(w AND ADDRESS_MASK = ADDRESS_MARK \<and> truthy (map_of ADDRESS_OPCODES (w AND ADDRESS_LIST)))
     = (address_group w \<noteq> None)"
  "address_group w = Some (t, n) \<Longrightarrow>
     t = ADDRESS \<and> map_of ADDRESS_OPCODES (w AND ADDRESS_LIST) = Some n"
  by (auto simp: address_group_def mask_defs truthy_address split: if_splits)

lemma other_step:
  "other_get (w AND OTHER_OPCODES_MASK) =
     (case other_group w of None \<Rightarrow> (None, None) | Some (t, n) \<Rightarrow> (Some t, Some n))"
  by (simp add: other_get_def other_group_def mask_defs)

lemma literal_step:
  "(w AND LITERAL_MASK = LITERAL_MARK \<and> truthy (map_of LITERAL_OPCODES (w AND LITERAL_LIST)))
     = (literal_group w \<noteq> None)"
  "literal_group w = Some (t, n) \<Longrightarrow>
     t = LITERAL \<and> map_of LITERAL_OPCODES (w AND LITERAL_LIST) = Some n"
  by (auto simp: literal_group_def mask_defs truthy_literal split: if_splits)

lemma m2a_step:
  "(w AND M2A_MASK = M2A_MARK \<and> truthy (map_of M2A_OPCODES (w AND M2A_LIST)))
     = (m2a_group w \<noteq> None)"
  "m2a_group w = Some (t, n) \<Longrightarrow> t = M2A \<and> map_of M2A_OPCODES (w AND M2A_LIST) = Some n"
  by (auto simp: m2a_group_def mask_defs truthy_m2a m2a_list m2a_lookup split: if_splits)

lemma decode_word_chain:
  "decode_word addr w =
     (case special_group w of Some (t, n) \<Rightarrow> Instruction_init addr (Some n) t w | None \<Rightarrow>
     (case bit_group w of Some (t, n) \<Rightarrow> Instruction_init addr (Some n) t w | None \<Rightarrow>
     (case address_group w of Some (t, n) \<Rightarrow> Instruction_init addr (Some n) t w | None \<Rightarrow>
     (case other_group w of Some (t, n) \<Rightarrow> Instruction_init addr (Some n) t w | None \<Rightarrow>
     (case literal_group w of Some (t, n) \<Rightarrow> Instruction_init addr (Some n) t w | None \<Rightarrow>
     (case m2a_group w of Some (t, n) \<Rightarrow> Instruction_init addr (Some n) t w | None \<Rightarrow>
      Instruction_init addr None INVALID w))))))"
  unfolding decode_word_def special_step(1) bit_step(1) address_step(1) other_step
    literal_step(1) m2a_step(1)
  by (auto split: option.splits dest: special_step(2) bit_step(2) address_step(2)
        literal_step(2) m2a_step(2))

lemma decode_word_first_match:
  "decode_word addr w = decode_by_priority pattern_groups addr w"
  unfolding decode_word_chain
  by (simp add: decode_by_priority_def pattern_groups_def split: option.splits)


lemma m2a_group_covered: "m2a_group w = Some r \<Longrightarrow> other_group w = Some r"
  by (auto simp: m2a_group_def other_group_def other_m2a split: if_splits)

lemma decode_word_without_m2a_chain:
  "decode_word_without_m2a addr w =
     (case special_group w of Some (t, n) \<Rightarrow> Instruction_init addr (Some n) t w | None \<Rightarrow>
     (case bit_group w of Some (t, n) \<Rightarrow> Instruction_init addr (Some n) t w | None \<Rightarrow>
     (case address_group w of Some (t, n) \<Rightarrow> Instruction_init addr (Some n) t w | None \<Rightarrow>
     (case other_group w of Some (t, n) \<Rightarrow> Instruction_init addr (Some n) t w | None \<Rightarrow>
     (case literal_group w of Some (t, n) \<Rightarrow> Instruction_init addr (Some n) t w | None \<Rightarrow>
      Instruction_init addr None INVALID w)))))"
  unfolding decode_word_without_m2a_def special_step(1) bit_step(1) address_step(1) other_step
    literal_step(1)
  by (auto split: option.splits dest: special_step(2) bit_step(2) address_step(2)
        literal_step(2))

lemma decode_word_m2a_dead: "decode_word addr w = decode_word_without_m2a addr w"
  unfolding decode_word_chain decode_word_without_m2a_chain
  by (auto split: option.splits dest: m2a_group_covered)

lemma group_result_ok:
  assumes "g \<in> set pattern_groups" and "g w = Some (t, n)"
  shows "n \<noteq> [] \<and> strip n = n \<and> t \<noteq> INVALID"
proof -
  have m2a: "''MOV'' \<noteq> [] \<and> strip ''MOV'' = ''MOV''"
    by (simp add: strip_def isspace_def)
  from assms consider
      "special_group w = Some (t, n)" | "bit_group w = Some (t, n)"
    | "address_group w = Some (t, n)" | "other_group w = Some (t, n)"
    | "literal_group w = Some (t, n)" | "m2a_group w = Some (t, n)"
    by (auto simp: pattern_groups_def)
  then show ?thesis
  proof cases
    case 1 then show ?thesis using special_step(2) special_names by blast
  next
    case 2 then show ?thesis using bit_step(2) bit_names by blast
  next
    case 3 then show ?thesis using address_step(2) address_names by blast
  next
    case 4 then show ?thesis using other_names [of "w AND 0x9F80" t n]
      by (auto simp: other_group_def)
  next
    case 5 then show ?thesis using literal_step(2) literal_names by blast
  next
    case 6 then show ?thesis using m2a by (auto simp: m2a_group_def split: if_splits)
  qed
qed

lemma first_match_Some:
  "first_match gs w = Some r \<Longrightarrow>
     \<exists>i < length gs. (gs ! i) w = Some r \<and> (\<forall>k < i. (gs ! k) w = None)"
proof (induction gs)
  case Nil
  then show ?case by simp
next
  case (Cons g gs)
  show ?case
  proof (cases "g w")
    case None
    with Cons obtain i where i: "i < length gs" "(gs ! i) w = Some r"
      "\<forall>k < i. (gs ! k) w = None" by auto
    have "\<forall>k < Suc i. ((g # gs) ! k) w = None"
      using None i(3) by (auto simp: less_Suc_eq_0_disj)
    with i(1,2) show ?thesis by (intro exI [of _ "Suc i"]) simp
  next
    case (Some a)
    with Cons.prems show ?thesis by (intro exI [of _ 0]) simp
  qed
qed

lemma first_match_None: "first_match gs w = None \<longleftrightarrow> (\<forall>g \<in> set gs. g w = None)"
  by (induction gs) (auto split: option.splits)

lemma first_match_at:
  "i < length gs \<Longrightarrow> (gs ! i) w = Some r \<Longrightarrow> \<forall>k < i. (gs ! k) w = None \<Longrightarrow>
     first_match gs w = Some r"
proof (induction gs arbitrary: i)
  case Nil
  then show ?case by simp
next
  case (Cons g gs)
  show ?case
  proof (cases i)
    case 0
    with Cons.prems show ?thesis by simp
  next
    case (Suc j)
    with Cons.prems have "g w = None" by auto
    moreover have "first_match gs w = Some r"
      using Cons.prems Suc by (intro Cons.IH [of j]) auto
    ultimately show ?thesis by simp
  qed
qed

lemma Instruction_init_valid:
  assumes "CODE_ADDRESS_START \<le> addr" and "addr \<le> CODE_ADDRESS_END"
    and "n \<noteq> []" and "strip n = n"
  shows "Instruction_init addr (Some n) t w =
           Inr \<lparr>address = addr, word = w, first = operand_first t w,
                second = operand_second t w, type = t, name = Some n\<rparr>"
  using assms by (simp add: Instruction_init_def stripped_name_def truthy_def)

lemma Instruction_init_invalid:
  assumes "CODE_ADDRESS_START \<le> addr" and "addr \<le> CODE_ADDRESS_END"
  shows "Instruction_init addr None INVALID w =
           Inr \<lparr>address = addr, word = w, first = None, second = None,
                type = INVALID, name = None\<rparr>"
  using assms
  by (simp add: Instruction_init_def stripped_name_def truthy_def operand_first_def
        operand_second_def)

section \<open>Properties of the decoder\<close>

text \<open>
  C1: for every 16-bit word and every address from 0x0000 to 0x07FF the decoder returns
  an instruction (it raises nothing), the instruction keeps the address and the word, its
  format is one of the eight members of the enumeration, and the format is the invalid
  one exactly when no pattern group matches the word; the invalid instruction has no
  name and no operands.
\<close>

theorem decode_word_total:
  assumes "0 \<le> addr" and "addr \<le> 0x07FF"
  shows "\<exists>i. decode_word addr w = Inr i
           \<and> address i = addr \<and> word i = w
           \<and> type i \<in> {SPECIAL, M2A, A2M, LITERAL, ADDRESS, BIT, MEMORY, INVALID}
           \<and> ((type i = INVALID) = (\<forall>g \<in> set pattern_groups. g w = None))
           \<and> ((\<forall>g \<in> set pattern_groups. g w = None) \<longrightarrow>
                i = \<lparr>address = addr, word = w, first = None, second = None,
                     type = INVALID, name = None\<rparr>)"
proof -
  have range: "CODE_ADDRESS_START \<le> addr" "addr \<le> CODE_ADDRESS_END"
    using assms by (simp_all add: CODE_ADDRESS_START_def CODE_ADDRESS_END_def)
  have all_formats: "\<And>t. t \<in> {SPECIAL, M2A, A2M, LITERAL, ADDRESS, BIT, MEMORY, INVALID}"
  proof -
    fix t show "t \<in> {SPECIAL, M2A, A2M, LITERAL, ADDRESS, BIT, MEMORY, INVALID}"
      by (cases t) simp_all
  qed
  show ?thesis
  proof (cases "first_match pattern_groups w")
    case None
    then have no_match: "\<forall>g \<in> set pattern_groups. g w = None"
      by (simp add: first_match_None)
    have "decode_word addr w =
            Inr \<lparr>address = addr, word = w, first = None, second = None,
                 type = INVALID, name = None\<rparr>"
      using None range
      by (simp add: decode_word_first_match decode_by_priority_def Instruction_init_invalid)
    with no_match show ?thesis by simp
  next
    case (Some r)
    obtain t n where r: "r = (t, n)" by (cases r)
    from first_match_Some [OF Some] obtain k where
      k: "k < length pattern_groups" "(pattern_groups ! k) w = Some (t, n)"
      unfolding r by blast
    then have mem: "pattern_groups ! k \<in> set pattern_groups" by simp
    from group_result_ok [OF mem k(2)]
    have ok: "n \<noteq> []" "strip n = n" "t \<noteq> INVALID" by simp_all
    have "decode_word addr w =
            Inr \<lparr>address = addr, word = w, first = operand_first t w,
                 second = operand_second t w, type = t, name = Some n\<rparr>"
      using Some r range ok
      by (simp add: decode_word_first_match decode_by_priority_def Instruction_init_valid)
    moreover have "\<not> (\<forall>g \<in> set pattern_groups. g w = None)"
      using mem k(2) by auto
    ultimately show ?thesis using ok(3) all_formats [of t] by simp
  qed
qed

theorem decode_word_total_witness:
  "(0::int) \<le> 5 \<and> (5::int) \<le> 0x07FF
   \<and> map (\<lambda>g. g 0x0006) pattern_groups = [None, None, None, None, None, None]
   \<and> decode_word 5 0x0006 =
       Inr \<lparr>address = 5, word = 0x0006, first = None, second = None,
            type = INVALID, name = None\<rparr>"
proof -
  have none: "map (\<lambda>g. g (0x0006 :: 16 word)) pattern_groups = [None, None, None, None, None, None]"
    by (simp add: pattern_groups_def group_defs SPECIAL_OPCODES_def OTHER_OPCODES_def)
  then have "\<forall>g \<in> set pattern_groups. g (0x0006 :: 16 word) = None"
    by (simp add: pattern_groups_def)
  with decode_word_total [of 5 "0x0006"] none show ?thesis by auto
qed

text \<open>
  C2: the decoder tries the groups in the order Special, Bit, Address, Other, Literal, M2A
  and returns at the first group whose mask/mark test passes and whose lookup succeeds:
  it is the first-match decoder over the ordered list of groups, so a word that a group
  matches, and no group before it, decodes as that group says, whatever later groups
  would say.
\<close>

theorem decode_word_order:
  "pattern_groups =
     [special_group, bit_group, address_group, other_group, literal_group, m2a_group]
   \<and> decode_word addr w = decode_by_priority pattern_groups addr w
   \<and> (\<forall>i < length pattern_groups. \<forall>t n.
         (pattern_groups ! i) w = Some (t, n) \<and> (\<forall>k < i. (pattern_groups ! k) w = None) \<longrightarrow>
         decode_word addr w = Instruction_init addr (Some n) t w)"
proof -
  have "decode_word addr w = Instruction_init addr (Some n) t w"
    if "i < length pattern_groups" "(pattern_groups ! i) w = Some (t, n)"
      "\<forall>k < i. (pattern_groups ! k) w = None" for i t n
    using first_match_at [OF that]
    by (simp add: decode_word_first_match decode_by_priority_def)
  then show ?thesis
    by (simp add: decode_word_first_match) (simp add: pattern_groups_def)
qed

theorem decode_word_order_witness:
  "(3::nat) < length pattern_groups
   \<and> (pattern_groups ! 3) 0x1900 = Some (MEMORY, ''RRA'')
   \<and> (pattern_groups ! 4) 0x1900 = Some (LITERAL, ''RET'')
   \<and> map (\<lambda>g. g 0x1900) (take 3 pattern_groups) = [None, None, None]
   \<and> decode_word 0 0x1900 =
       Inr \<lparr>address = 0, word = 0x1900, first = Some 0, second = None,
            type = MEMORY, name = Some ''RRA''\<rparr>"
proof -
  have other: "(pattern_groups ! 3) (0x1900 :: 16 word) = Some (MEMORY, ''RRA'')"
    by (simp add: pattern_groups_def group_defs OTHER_OPCODES_def)
  have literal: "(pattern_groups ! 4) (0x1900 :: 16 word) = Some (LITERAL, ''RET'')"
    by (simp add: pattern_groups_def group_defs LITERAL_OPCODES_def)
  have before: "\<forall>k < 3. (pattern_groups ! k) (0x1900 :: 16 word) = None"
    by (simp add: pattern_groups_def group_defs numeral_3_eq_3 less_Suc_eq)
  have len: "(3::nat) < length pattern_groups"
    by (simp add: pattern_groups_def)
  have "decode_word 0 0x1900 = Instruction_init 0 (Some ''RRA'') MEMORY 0x1900"
    using decode_word_order [of 0 "0x1900"] len other before by blast
  moreover have "Instruction_init 0 (Some ''RRA'') MEMORY 0x1900 =
      Inr \<lparr>address = 0, word = 0x1900, first = Some 0, second = None,
           type = MEMORY, name = Some ''RRA''\<rparr>"
    by (simp add: Instruction_init_def CODE_ADDRESS_START_def CODE_ADDRESS_END_def
          stripped_name_def truthy_def strip_def isspace_def operand_first_def
          operand_second_def get_data_address_def)
  moreover have "map (\<lambda>g. g (0x1900 :: 16 word)) (take 3 pattern_groups) = [None, None, None]"
    by (simp add: pattern_groups_def group_defs)
  ultimately show ?thesis using len other literal by simp
qed

text \<open>
  C8: the M2A group never decides the result. A word that passes its mask/mark test is
  found in the Other table with the same format M2A and the same mnemonic MOV, and the
  decoder without the M2A step returns what the decoder returns, for every address and
  every word.
\<close>

theorem m2a_fallback_dead:
  "(w AND M2A_MASK = M2A_MARK \<longrightarrow>
      other_get (w AND OTHER_OPCODES_MASK) = (Some M2A, Some ''MOV''))
   \<and> decode_word addr w = decode_word_without_m2a addr w"
  by (simp add: decode_word_m2a_dead other_get_def mask_defs other_m2a)

theorem m2a_fallback_dead_witness:
  "(0x0080 :: 16 word) AND M2A_MASK = M2A_MARK
   \<and> other_get (0x0080 AND OTHER_OPCODES_MASK) = (Some M2A, Some ''MOV'')
   \<and> decode_word 0 0x0080 = decode_word_without_m2a 0 0x0080"
proof -
  have "(0x0080 :: 16 word) AND M2A_MASK = M2A_MARK"
    by (simp add: mask_defs)
  with m2a_fallback_dead [of "0x0080" 0] show ?thesis by simp
qed

section \<open>Formatting\<close>

lemma replicate_small:
  "replicate 2 c = [c, c]" "replicate 3 c = [c, c, c]"
  by (simp_all add: numeral_2_eq_2 numeral_3_eq_3)

lemmas format_eval = format_X_def zfill_def to_hex.simps hex_digit_def replicate_small

lemma format_X_examples:
  "format_X 4 0 = ''0000''" "format_X 4 1 = ''0001''" "format_X 4 0x2000 = ''2000''"
  by (simp_all add: format_eval)

lemma to_hex_digit: "n < 16 \<Longrightarrow> to_hex n = [hex_digit n]"
  by (simp add: to_hex.simps)

lemma to_hex_two: "16 \<le> n \<Longrightarrow> n < 256 \<Longrightarrow> to_hex n = [hex_digit (n div 16), hex_digit (n mod 16)]"
proof -
  assume "16 \<le> n" "n < 256"
  then have "n div 16 < 16" by simp
  then have "to_hex (n div 16) = [hex_digit (n div 16)]" by (rule to_hex_digit)
  with \<open>16 \<le> n\<close> show ?thesis by (subst to_hex.simps) simp
qed

lemma format_X_byte:
  assumes "0 \<le> l" and "l \<le> 0xFF"
  shows "format_X 2 l = [hex_digit (nat l div 16), hex_digit (nat l mod 16)]"
proof (cases "nat l < 16")
  case True
  then show ?thesis using assms
    by (simp add: format_X_def zfill_def to_hex_digit hex_digit_def)
next
  case False
  then have "16 \<le> nat l" "nat l < 256" using assms by simp_all
  then show ?thesis using assms
    by (simp add: format_X_def zfill_def to_hex_two)
qed

lemma memory_names_nonempty: "Some r \<in> set MEMORY_MAP \<Longrightarrow> r \<noteq> []"
  by (auto simp: MEMORY_MAP_def)

lemma get_data_address_range: "0 \<le> get_data_address w \<and> get_data_address w \<le> 0xFF"
proof -
  have "w AND 0x7F \<le> 0x7F" by (rule word_and_le1)
  then have "uint (w AND 0x7F) \<le> 0x7F" by (simp add: word_le_def)
  then show ?thesis by (simp add: get_data_address_def)
qed


lemma lookup_0x00: "lookup_memory_location (Some 0x00) = Inr ''IAR0''"
  by (simp add: lookup_memory_location_def MEMORY_MAP_def)

lemma lookup_0x10: "lookup_memory_location (Some 0x10) = Inr ''[010h]''"
  by (simp add: lookup_memory_location_def MEMORY_MAP_def format_eval)

lemma lookup_0x60: "lookup_memory_location (Some 0x60) = Inr ''[060h]''"
  by (simp add: lookup_memory_location_def MEMORY_MAP_def format_eval)

text \<open>
  C7: memory-location lookup renders 0x00 as IAR0, 0x10 as [010h] and 0x60 as [060h].
  In general a location that has a name in the memory map renders as that name, and
  every other data address (the operand extraction yields 0 to 0xFF) renders as
  \<open>[0\<close>, its two upper-case hexadecimal digits and \<open>h]\<close>.
\<close>

theorem lookup_memory_location_renders:
  "lookup_memory_location (Some 0x00) = Inr ''IAR0''
   \<and> lookup_memory_location (Some 0x10) = Inr ''[010h]''
   \<and> lookup_memory_location (Some 0x60) = Inr ''[060h]''
   \<and> (0 \<le> l \<and> l < int (length MEMORY_MAP) \<and> MEMORY_MAP ! nat l = Some r \<longrightarrow>
        lookup_memory_location (Some l) = Inr r)
   \<and> (0 \<le> l \<and> l \<le> 0xFF \<and> \<not> (l < int (length MEMORY_MAP) \<and> MEMORY_MAP ! nat l \<noteq> None) \<longrightarrow>
        lookup_memory_location (Some l)
          = Inr (''[0'' @ [hex_digit (nat l div 16), hex_digit (nat l mod 16)] @ ''h]''))
   \<and> 0 \<le> get_data_address w \<and> get_data_address w \<le> 0xFF"
proof -
  have named: "lookup_memory_location (Some l) = Inr r"
    if "0 \<le> l" "l < int (length MEMORY_MAP)" "MEMORY_MAP ! nat l = Some r"
  proof -
    from that have "Some r \<in> set MEMORY_MAP"
      by (metis nth_mem nat_less_iff)
    then have "r \<noteq> []" by (rule memory_names_nonempty)
    with that show ?thesis by (simp add: lookup_memory_location_def)
  qed
  have unnamed: "lookup_memory_location (Some l)
          = Inr (''[0'' @ [hex_digit (nat l div 16), hex_digit (nat l mod 16)] @ ''h]'')"
    if "0 \<le> l" "l \<le> 0xFF" "\<not> (l < int (length MEMORY_MAP) \<and> MEMORY_MAP ! nat l \<noteq> None)"
    using that by (auto simp: lookup_memory_location_def format_X_byte)
  show ?thesis using named unnamed lookup_0x60 lookup_0x10 lookup_0x00 get_data_address_range by blast
qed

theorem lookup_memory_location_renders_witness:
  "(0::int) \<le> 0x13 \<and> (0x13::int) < int (length MEMORY_MAP)
   \<and> MEMORY_MAP ! nat 0x13 = Some ''LVRC''
   \<and> lookup_memory_location (Some 0x13) = Inr ''LVRC''
   \<and> (0::int) \<le> 0x80 \<and> (0x80::int) \<le> 0xFF \<and> \<not> (0x80::int) < int (length MEMORY_MAP)
   \<and> lookup_memory_location (Some 0x80) = Inr ''[080h]''"
proof -
  have a: "(0x13::int) < int (length MEMORY_MAP)" "MEMORY_MAP ! nat 0x13 = Some ''LVRC''"
    by (simp_all add: MEMORY_MAP_def)
  have b: "\<not> (0x80::int) < int (length MEMORY_MAP)"
    by (simp add: MEMORY_MAP_def)
  have "lookup_memory_location (Some 0x13) = Inr ''LVRC''"
    using lookup_memory_location_renders [where l = "0x13" and r = "''LVRC''"] a by simp
  moreover have "lookup_memory_location (Some 0x80) = Inr ''[080h]''"
    using lookup_memory_location_renders [where l = "0x80"] b by (simp add: hex_digit_def)
  ultimately show ?thesis using a b by simp
qed

text \<open>
  C9: the memory map as the source writes it. The list has 0x61 entries, one more than
  the six rows of sixteen its row comments (00H to 50H) announce: index 0x60 is inside the
  table, and the touch-key registers sit one place after the row comment's address
  (TKTMR at 0x44, the last name TKM1C1 at 0x54).
\<close>

theorem MEMORY_MAP_extent:
  "length MEMORY_MAP = 0x61
   \<and> (0x60::int) < int (length MEMORY_MAP) \<and> MEMORY_MAP ! 0x60 = None
   \<and> MEMORY_MAP ! 0x20 = Some ''PB'' \<and> MEMORY_MAP ! 0x43 = None
   \<and> MEMORY_MAP ! 0x44 = Some ''TKTMR'' \<and> MEMORY_MAP ! 0x54 = Some ''TKM1C1''"
  by (simp add: MEMORY_MAP_def)

section \<open>A program of two words\<close>

lemma load_nop_call:
  "load_binary_file \<lparr>path = p, is_file = True, st_size = 4,
                     source_bytes = [0x00, 0x00, 0x00, 0x20]\<rparr> = Inr [0x0000, 0x2000]"
  by (simp add: load_binary_file_def CODE_FILE_MAX_SIZE_def)

lemmas init_eval =
  Instruction_init_def CODE_ADDRESS_START_def CODE_ADDRESS_END_def stripped_name_def
  truthy_def strip_def isspace_def operand_first_def operand_second_def

lemma decode_nop:
  "decode_word 0 0x0000 =
     Inr \<lparr>address = 0, word = 0x0000, first = None, second = None,
          type = SPECIAL, name = Some ''NOP''\<rparr>"
  by (simp add: decode_word_chain group_defs SPECIAL_OPCODES_def init_eval)

lemma decode_call:
  "decode_word 1 0x2000 =
     Inr \<lparr>address = 1, word = 0x2000, first = Some 0, second = None,
          type = ADDRESS, name = Some ''CALL''\<rparr>"
  by (simp add: decode_word_chain group_defs ADDRESS_OPCODES_def init_eval)

text \<open>
  C5: the program of the two words 0x0000 and 0x2000 (bytes 00 00 00 20), disassembled
  with labels: an empty line, the line \<open>label0000:\<close> and another empty line come
  immediately before the line of address 0 (NOP), and the CALL at address 1 prints its
  operand as \<open>label0000\<close>.
\<close>

theorem disassemble_nop_call:
  "disassemble \<lparr>path = ''rom.bin'', is_file = True, st_size = 4,
                source_bytes = [0x00, 0x00, 0x00, 0x20]\<rparr> True =
     Inr (newline @ ''label0000:'' @ newline @ newline
          @ ''0000'' @ tab @ ''0000'' @ tab @ ''NOP'' @ newline
          @ ''0001'' @ tab @ ''2000'' @ tab @ ''CALL'' @ tab @ ''label0000'' @ newline)"
  by (simp add: disassemble_def Disassembler_init_def load_nop_call decode_nop decode_call
        assign_labels_def format_X_examples generate_output_def format_instruction_def
        format_operands_def format_s_def)

section \<open>Loading\<close>

lemma uint_lo: "uint (ucast (lo :: 8 word) :: 16 word) = uint lo"
  by (simp add: uint_up_ucast is_up)

lemma take_lo: "take_bit 8 (uint (lo :: 8 word)) = uint lo"
proof -
  have "0 \<le> uint lo" "uint lo < 2 ^ 8" using uint_bounded [of lo] by simp_all
  then show ?thesis by (simp add: take_bit_int_eq_self)
qed

lemma uint_hi: "uint (push_bit 8 (ucast (hi :: 8 word)) :: 16 word) = push_bit 8 (uint hi)"
proof -
  have "uint hi < 2 ^ 8" using uint_bounded [of hi] by simp
  then have "push_bit 8 (uint hi) < 2 ^ 16" by (simp add: push_bit_eq_mult)
  moreover have "0 \<le> push_bit 8 (uint hi)" by simp
  ultimately have "take_bit 16 (push_bit 8 (uint hi)) = push_bit 8 (uint hi)"
    by (simp add: take_bit_int_eq_self)
  then show ?thesis by (simp add: unsigned_push_bit_eq uint_lo)
qed

lemma uint_little_endian: "uint (ucast (lo :: 8 word) OR push_bit 8 (ucast (hi :: 8 word)) :: 16 word) = uint lo + 256 * uint hi"
proof -
  have "uint (ucast lo OR push_bit 8 (ucast hi) :: 16 word)
          = take_bit 8 (uint lo) OR push_bit 8 (uint hi)"
    by (simp add: uint_or uint_lo uint_hi take_lo)
  also have "\<dots> = take_bit 8 (uint lo) + push_bit 8 (uint hi)"
    using concat_bit_eq [of 8 "uint lo" "uint hi"] by (simp add: concat_bit_def)
  finally show ?thesis by (simp add: take_lo push_bit_eq_mult)
qed


lemma length_unpack: "length (unpack bs) = length bs div 2"
  by (induction bs rule: unpack.induct) simp_all

lemma unpack_nth:
  "k < length bs div 2 \<Longrightarrow>
     unpack bs ! k = ucast (bs ! (2 * k)) OR push_bit 8 (ucast (bs ! (2 * k + 1)))"
proof (induction bs arbitrary: k rule: unpack.induct)
  case (1 lo hi rest)
  then show ?case by (cases k) simp_all
qed simp_all

lemma Disassembler_init_load_error:
  "load_binary_file f = Inl e \<Longrightarrow> Disassembler_init f l = Inl e"
  by (simp add: Disassembler_init_def)

text \<open>
  C6: loading fails with a message naming the cause when the file is empty, has an odd
  number of bytes or has more than 0x1000 bytes, and then the constructor fails with the
  same error, before any word is decoded. Otherwise (a regular file, read in full) loading
  returns size/2 words, word \<open>k\<close> being the bytes \<open>2k\<close> (low) and \<open>2k+1\<close> (high) of the file.
\<close>

theorem load_binary_file_contract:
  "(\<not> is_file f \<longrightarrow> load_binary_file f = Inl (Exception (path f @ '' is not a file'')))
   \<and> (is_file f \<and> st_size f = 0 \<longrightarrow>
        load_binary_file f = Inl (Exception (path f @ '' does not contain any code'')))
   \<and> (is_file f \<and> st_size f mod 2 = 1 \<longrightarrow>
        load_binary_file f = Inl (Exception (path f @ '' is not word-aligned'')))
   \<and> (is_file f \<and> st_size f mod 2 = 0 \<and> st_size f > 0x1000 \<longrightarrow>
        load_binary_file f = Inl (Exception (path f @ '' is too big to fit in the MCU memory'')))
   \<and> (st_size f = 0 \<or> st_size f mod 2 = 1 \<or> st_size f > 0x1000 \<longrightarrow>
        (\<exists>msg. load_binary_file f = Inl (Exception msg)
               \<and> Disassembler_init f l = Inl (Exception msg)))
   \<and> (is_file f \<and> length (source_bytes f) = st_size f
        \<and> st_size f \<noteq> 0 \<and> st_size f mod 2 = 0 \<and> st_size f \<le> 0x1000 \<longrightarrow>
        (\<exists>ws. load_binary_file f = Inr ws \<and> length ws = st_size f div 2
              \<and> (\<forall>k < length ws.
                    uint (ws ! k) = uint (source_bytes f ! (2 * k))
                                    + 256 * uint (source_bytes f ! (2 * k + 1)))))"
proof -
  have rejected: "\<exists>msg. load_binary_file f = Inl (Exception msg)
                      \<and> Disassembler_init f l = Inl (Exception msg)"
    if "st_size f = 0 \<or> st_size f mod 2 = 1 \<or> st_size f > 0x1000"
  proof -
    from that have "\<exists>msg. load_binary_file f = Inl (Exception msg)"
      by (auto simp: load_binary_file_def CODE_FILE_MAX_SIZE_def)
    then show ?thesis using Disassembler_init_load_error by blast
  qed
  have loaded: "\<exists>ws. load_binary_file f = Inr ws \<and> length ws = st_size f div 2
              \<and> (\<forall>k < length ws.
                    uint (ws ! k) = uint (source_bytes f ! (2 * k))
                                    + 256 * uint (source_bytes f ! (2 * k + 1)))"
    if "is_file f" "length (source_bytes f) = st_size f"
      "st_size f \<noteq> 0" "st_size f mod 2 = 0" "st_size f \<le> 0x1000"
  proof -
    have "load_binary_file f = Inr (unpack (source_bytes f))"
      using that by (simp add: load_binary_file_def CODE_FILE_MAX_SIZE_def)
    moreover have "length (unpack (source_bytes f)) = st_size f div 2"
      using that(2) by (simp add: length_unpack)
    moreover have "uint (unpack (source_bytes f) ! k)
        = uint (source_bytes f ! (2 * k)) + 256 * uint (source_bytes f ! (2 * k + 1))"
      if "k < length (unpack (source_bytes f))" for k
      using that by (simp add: length_unpack unpack_nth uint_little_endian)
    ultimately show ?thesis by blast
  qed
  show ?thesis using rejected loaded
    by (simp add: load_binary_file_def CODE_FILE_MAX_SIZE_def)
qed

theorem load_binary_file_contract_witness:
  "Disassembler_init \<lparr>path = ''rom.bin'', is_file = True, st_size = 0, source_bytes = []\<rparr> True
     = Inl (Exception ''rom.bin does not contain any code'')
   \<and> Disassembler_init
        \<lparr>path = ''rom.bin'', is_file = True, st_size = 3, source_bytes = [1, 2, 3]\<rparr> True
     = Inl (Exception ''rom.bin is not word-aligned'')
   \<and> Disassembler_init
        \<lparr>path = ''rom.bin'', is_file = True, st_size = 0x1002,
         source_bytes = replicate 0x1002 0\<rparr> True
     = Inl (Exception ''rom.bin is too big to fit in the MCU memory'')
   \<and> (\<exists>ws. load_binary_file
              \<lparr>path = ''rom.bin'', is_file = True, st_size = 2, source_bytes = [0x34, 0x12]\<rparr>
            = Inr ws \<and> length ws = 1 \<and> uint (ws ! 0) = 0x1234)"
proof -
  have a: "Disassembler_init \<lparr>path = ''rom.bin'', is_file = True, st_size = 0, source_bytes = []\<rparr> True
     = Inl (Exception ''rom.bin does not contain any code'')"
    using load_binary_file_contract
      [of "\<lparr>path = ''rom.bin'', is_file = True, st_size = 0, source_bytes = []\<rparr>" True]
    by auto
  have b: "Disassembler_init
        \<lparr>path = ''rom.bin'', is_file = True, st_size = 3, source_bytes = [1, 2, 3]\<rparr> True
     = Inl (Exception ''rom.bin is not word-aligned'')"
    using load_binary_file_contract
      [of "\<lparr>path = ''rom.bin'', is_file = True, st_size = 3, source_bytes = [1, 2, 3]\<rparr>" True]
    by auto
  have c: "Disassembler_init
        \<lparr>path = ''rom.bin'', is_file = True, st_size = 0x1002,
         source_bytes = replicate 0x1002 0\<rparr> True
     = Inl (Exception ''rom.bin is too big to fit in the MCU memory'')"
    using load_binary_file_contract
      [of "\<lparr>path = ''rom.bin'', is_file = True, st_size = 0x1002,
           source_bytes = replicate 0x1002 0\<rparr>" True]
    by auto
  have d: "\<exists>ws. load_binary_file
              \<lparr>path = ''rom.bin'', is_file = True, st_size = 2, source_bytes = [0x34, 0x12]\<rparr>
            = Inr ws \<and> length ws = 1 \<and> uint (ws ! 0) = 0x1234"
    using load_binary_file_contract
      [of "\<lparr>path = ''rom.bin'', is_file = True, st_size = 2, source_bytes = [0x34, 0x12]\<rparr>" True]
    by auto
  from a b c d show ?thesis by blast
qed

section \<open>Label assignment and formatting of a decoded program\<close>

lemma set_first_seen: "set (first_seen xs) = set xs"
  by (induction xs rule: first_seen.induct) auto

lemma distinct_first_seen: "distinct (first_seen xs)"
  by (induction xs rule: first_seen.induct) (auto simp: set_first_seen)

lemma length_first_seen: "length (first_seen xs) \<le> length xs"
proof (induction xs rule: first_seen.induct)
  case 1
  then show ?case by simp
next
  case (2 x xs)
  have "length (filter (\<lambda>y. y \<noteq> x) xs) \<le> length xs" by (rule length_filter_le)
  with 2 have "length (first_seen (filter (\<lambda>y. y \<noteq> x) xs)) \<le> length xs"
    by (rule order_trans)
  then show ?case by simp
qed

lemma targets_Nil: "targets [] = []"
  by (simp add: targets_def)

lemma targets_Cons:
  "targets (i # is) = (if type i = ADDRESS then first i # targets is else targets is)"
  by (simp add: targets_def)

lemma dom_assign_labels_loop:
  "dom (assign_labels_loop is tbl c) = dom tbl \<union> set (targets is)"
  by (induction "is" arbitrary: tbl c) (auto simp: targets_Cons targets_Nil)

lemma assign_labels_loop_keeps:
  "k \<in> dom tbl \<Longrightarrow> assign_labels_loop is tbl c k = tbl k"
  by (induction "is" arbitrary: tbl c) auto

lemma assign_labels_loop_saturated:
  "set (targets is) \<subseteq> dom tbl \<Longrightarrow> assign_labels_loop is tbl c = tbl"
  by (induction "is" arbitrary: tbl c) (auto simp: targets_Cons targets_Nil split: if_splits)

lemma assign_labels_loop_numbers:
  "i < length (first_seen (filter (\<lambda>k. k \<notin> dom tbl) (targets is))) \<Longrightarrow>
     assign_labels_loop is tbl c (first_seen (filter (\<lambda>k. k \<notin> dom tbl) (targets is)) ! i)
       = Some (''label'' @ format_X 4 (c + int i))"
proof (induction "is" arbitrary: tbl c i)
  case Nil
  then show ?case by (simp add: targets_def)
next
  case (Cons x xs)
  show ?case
  proof (cases "type x = ADDRESS \<and> first x \<notin> dom tbl")
    case False
    then have "filter (\<lambda>k. k \<notin> dom tbl) (targets (x # xs))
                 = filter (\<lambda>k. k \<notin> dom tbl) (targets xs)"
      by (auto simp: targets_Cons)
    moreover have "assign_labels_loop (x # xs) tbl c = assign_labels_loop xs tbl c"
      using False by auto
    ultimately show ?thesis using Cons.IH [of i tbl c] Cons.prems by simp
  next
    case True
    define tbl' where "tbl' = tbl(first x \<mapsto> ''label'' @ format_X 4 c)"
    have dom': "dom tbl' = insert (first x) (dom tbl)"
      by (simp add: tbl'_def)
    have step: "assign_labels_loop (x # xs) tbl c = assign_labels_loop xs tbl' (c + 1)"
      using True by (simp add: tbl'_def)
    have rest: "filter (\<lambda>y. y \<noteq> first x) (filter (\<lambda>k. k \<notin> dom tbl) (targets xs))
                  = filter (\<lambda>k. k \<notin> dom tbl') (targets xs)"
      unfolding dom' by (auto intro: filter_cong)
    have seen: "first_seen (filter (\<lambda>k. k \<notin> dom tbl) (targets (x # xs)))
                  = first x # first_seen (filter (\<lambda>k. k \<notin> dom tbl') (targets xs))"
      using True rest by (simp add: targets_Cons)
    show ?thesis
    proof (cases i)
      case 0
      have "first x \<in> dom tbl'" by (simp add: dom')
      then have "assign_labels_loop xs tbl' (c + 1) (first x) = tbl' (first x)"
        by (rule assign_labels_loop_keeps)
      also have "\<dots> = Some (''label'' @ format_X 4 c)" by (simp add: tbl'_def)
      finally show ?thesis unfolding step seen 0 by simp
    next
      case (Suc j)
      with Cons.prems seen
      have "j < length (first_seen (filter (\<lambda>k. k \<notin> dom tbl') (targets xs)))" by simp
      from Cons.IH [OF this, of "c + 1"] show ?thesis
        unfolding step seen Suc by (simp add: add.assoc)
    qed
  qed
qed

lemma assign_labels_numbers:
  "i < length (first_seen (targets is)) \<Longrightarrow>
     assign_labels is Map.empty (first_seen (targets is) ! i) = Some (''label'' @ format_X 4 (int i))"
  using assign_labels_loop_numbers [of i Map.empty "is" 0]
  by (simp add: assign_labels_def)

lemma assign_labels_idem:
  "assign_labels is (assign_labels is Map.empty) = assign_labels is Map.empty"
proof -
  have "set (targets is) \<subseteq> dom (assign_labels is Map.empty)"
    by (simp add: assign_labels_def dom_assign_labels_loop)
  then show ?thesis
    using assign_labels_loop_saturated [of "is" "assign_labels is Map.empty" 0]
    by (simp add: assign_labels_def)
qed

lemma Instruction_init_fields:
  "Instruction_init addr n t w = Inr i \<Longrightarrow>
     0 \<le> addr \<and> addr \<le> 0x07FF \<and> address i = addr \<and> word i = w \<and> type i = t
     \<and> first i = operand_first t w \<and> second i = operand_second t w
     \<and> (t = INVALID \<or> name i \<noteq> None)"
  by (auto simp: Instruction_init_def CODE_ADDRESS_START_def CODE_ADDRESS_END_def truthy_def
        split: if_splits)

lemma decode_word_is_init:
  "\<exists>n t. decode_word addr w = Instruction_init addr n t w"
  unfolding decode_word_chain by (auto split: option.splits)

lemma decode_word_fields:
  assumes "decode_word addr w = Inr i"
  shows "0 \<le> addr \<and> addr \<le> 0x07FF \<and> address i = addr \<and> word i = w
     \<and> first i = operand_first (type i) w \<and> second i = operand_second (type i) w
     \<and> (type i = INVALID \<or> name i \<noteq> None)"
proof -
  from decode_word_is_init obtain n t where "decode_word addr w = Instruction_init addr n t w"
    by blast
  with assms have "Instruction_init addr n t w = Inr i" by simp
  from Instruction_init_fields [OF this] show ?thesis by simp
qed

lemma decode_words_nth:
  "decode_words addr ws = Inr is \<Longrightarrow>
     length is = length ws
     \<and> (\<forall>j < length ws. decode_word (addr + int j) (ws ! j) = Inr (is ! j))"
proof (induction ws arbitrary: addr "is")
  case Nil
  then show ?case by simp
next
  case (Cons w ws)
  from Cons.prems obtain i rest where
    i: "decode_word addr w = Inr i" and rest: "decode_words (addr + 1) ws = Inr rest"
    and eq: "is = i # rest"
    by (auto split: sum.splits)
  from Cons.IH [OF rest] have len: "length rest = length ws"
    and nth: "\<And>j. j < length ws \<Longrightarrow> decode_word (addr + 1 + int j) (ws ! j) = Inr (rest ! j)"
    by simp_all
  have "decode_word (addr + int j) ((w # ws) ! j) = Inr (is ! j)" if "j < length (w # ws)" for j
  proof (cases j)
    case 0
    then show ?thesis using i eq by simp
  next
    case (Suc k)
    with that have "k < length ws" by simp
    from nth [OF \<open>k < length ws\<close>] show ?thesis using Suc eq by (simp add: add.assoc)
  qed
  then show ?case using len eq by simp
qed

lemma decode_words_length_bound:
  assumes "decode_words 0 ws = Inr is"
  shows "length is \<le> 0x800"
proof (cases ws)
  case Nil
  with assms show ?thesis by simp
next
  case (Cons w rest)
  from decode_words_nth [OF assms] have len: "length is = length ws"
    and nth: "\<And>j. j < length ws \<Longrightarrow> decode_word (0 + int j) (ws ! j) = Inr (is ! j)"
    by simp_all
  have "length ws - 1 < length ws" using Cons by simp
  from decode_word_fields [OF nth [OF this]] have "int (length ws - 1) \<le> 0x07FF" by simp
  then show ?thesis using len by simp
qed

lemma to_hex_three:
  assumes "256 \<le> n" and "n < 4096"
  shows "to_hex n = [hex_digit (n div 256), hex_digit (n div 16 mod 16), hex_digit (n mod 16)]"
proof -
  have "16 \<le> n div 16" "n div 16 < 256" using assms by simp_all
  from to_hex_two [OF this] have "to_hex (n div 16)
      = [hex_digit (n div 16 div 16), hex_digit (n div 16 mod 16)]" .
  moreover have "n div 16 div 16 = n div 256" by (simp add: div_mult2_eq)
  ultimately show ?thesis using assms by (subst to_hex.simps) simp
qed

lemma to_hex_four:
  assumes "4096 \<le> n" and "n < 65536"
  shows "to_hex n = [hex_digit (n div 4096), hex_digit (n div 256 mod 16),
                     hex_digit (n div 16 mod 16), hex_digit (n mod 16)]"
proof -
  have "256 \<le> n div 16" "n div 16 < 4096" using assms by simp_all
  from to_hex_three [OF this] have "to_hex (n div 16)
      = [hex_digit (n div 16 div 256), hex_digit (n div 16 div 16 mod 16),
         hex_digit (n div 16 mod 16)]" .
  moreover have "n div 16 div 256 = n div 4096" "n div 16 div 16 = n div 256"
    by (simp_all add: div_mult2_eq)
  ultimately show ?thesis using assms by (subst to_hex.simps) simp
qed

lemma format_X_four_digits:
  assumes "n < 65536"
  shows "format_X 4 (int n) = [hex_digit (n div 4096), hex_digit (n div 256 mod 16),
                               hex_digit (n div 16 mod 16), hex_digit (n mod 16)]"
proof -
  consider "n < 16" | "16 \<le> n" "n < 256" | "256 \<le> n" "n < 4096" | "4096 \<le> n"
    by linarith
  then show ?thesis
  proof cases
    case 1
    then show ?thesis
      by (simp add: format_X_def zfill_def to_hex_digit replicate_small hex_digit_def)
  next
    case 2
    then have "n div 256 = 0" "n div 4096 = 0" by simp_all
    with 2 show ?thesis
      by (simp add: format_X_def zfill_def to_hex_two replicate_small hex_digit_def)
  next
    case 3
    then have "n div 4096 = 0" "n div 256 mod 16 = n div 256" by simp_all
    with 3 show ?thesis
      by (simp add: format_X_def zfill_def to_hex_three hex_digit_def)
  next
    case 4
    with assms show ?thesis
      by (simp add: format_X_def zfill_def to_hex_four)
  qed
qed

lemma lookup_memory_location_ok:
  "0 \<le> l \<Longrightarrow> \<exists>s. lookup_memory_location (Some l) = Inr s"
  by (simp add: lookup_memory_location_def split: option.splits)

lemma format_operands_ok:
  assumes "first i = operand_first (type i) w" and "second i = operand_second (type i) w"
    and "type i = INVALID \<or> name i \<noteq> None"
    and "type i = ADDRESS \<Longrightarrow> has_labels d \<and> first i \<in> dom (labels d)"
  shows "\<exists>s. format_operands d i = Inr s"
proof -
  obtain s where s: "lookup_memory_location (Some (get_data_address w)) = Inr s"
    using lookup_memory_location_ok get_data_address_range by blast
  show ?thesis
  proof (cases "type i")
    case ADDRESS
    with assms(4) obtain l where "has_labels d" "labels d (first i) = Some l" by auto
    with ADDRESS show ?thesis by (simp add: format_operands_def)
  qed (use assms(1-3) s in \<open>auto simp: format_operands_def operand_first_def operand_second_def\<close>)
qed

lemma format_instruction_ok:
  "\<exists>s. format_operands d i = Inr s \<Longrightarrow> \<exists>line. format_instruction d addr i = Inr line"
  by (auto simp: format_instruction_def)

lemma generate_lines_ok:
  "\<forall>i \<in> set is. \<exists>s. format_operands d i = Inr s \<Longrightarrow> \<exists>out. generate_lines d addr is = Inr out"
proof (induction "is" arbitrary: addr)
  case Nil
  then show ?case by simp
next
  case (Cons i rest)
  then obtain line where "format_instruction d addr i = Inr line"
    using format_instruction_ok [of d i addr] by auto
  moreover from Cons obtain out where "generate_lines d (addr + 1) rest = Inr out"
    by fastforce
  ultimately show ?case by simp
qed

lemma Disassembler_init_Inr:
  assumes "Disassembler_init f enabled = Inr d"
  shows "load_binary_file f = Inr (words d) \<and> decode_words 0 (words d) = Inr (instructions d)
     \<and> has_labels d = enabled
     \<and> labels d = (if enabled then assign_labels (instructions d) Map.empty else Map.empty)"
  using assms by (auto simp: Disassembler_init_def split: sum.splits)

lemma decoded_instruction_fields:
  assumes "decode_words 0 ws = Inr is" and "i \<in> set is"
  shows "\<exists>j < length ws. decode_word (int j) (ws ! j) = Inr i \<and> i = is ! j"
proof -
  from assms(2) obtain j where j: "j < length is" "is ! j = i"
    by (auto simp: in_set_conv_nth)
  from decode_words_nth [OF assms(1)] j show ?thesis by auto
qed

lemma target_of_address:
  "decode_word addr w = Inr i \<Longrightarrow> type i = ADDRESS \<Longrightarrow> first i = Some (uint (w AND 0x7FF))"
  using decode_word_fields [of addr w i] by (simp add: operand_first_def)

lemma set_targets: "set (targets is) = {first i | i. i \<in> set is \<and> type i = ADDRESS}"
  by (auto simp: targets_def)

lemma dom_assign_labels: "dom (assign_labels is Map.empty) = set (targets is)"
  by (simp add: assign_labels_def dom_assign_labels_loop)

lemma decode_jmp_call_jmp:
  "decode_words 0 [0x2805, 0x2000, 0x2805] =
     Inr [\<lparr>address = 0, word = 0x2805, first = Some 5, second = None,
           type = ADDRESS, name = Some ''JMP''\<rparr>,
          \<lparr>address = 1, word = 0x2000, first = Some 0, second = None,
           type = ADDRESS, name = Some ''CALL''\<rparr>,
          \<lparr>address = 2, word = 0x2805, first = Some 5, second = None,
           type = ADDRESS, name = Some ''JMP''\<rparr>]"
  by (simp add: decode_word_chain group_defs ADDRESS_OPCODES_def init_eval)

lemma decode_jmp_nop_call:
  "decode_words 0 [0x2802, 0x0000, 0x2000] =
     Inr [\<lparr>address = 0, word = 0x2802, first = Some 2, second = None,
           type = ADDRESS, name = Some ''JMP''\<rparr>,
          \<lparr>address = 1, word = 0x0000, first = None, second = None,
           type = SPECIAL, name = Some ''NOP''\<rparr>,
          \<lparr>address = 2, word = 0x2000, first = Some 0, second = None,
           type = ADDRESS, name = Some ''CALL''\<rparr>]"
  by (simp add: decode_word_chain group_defs ADDRESS_OPCODES_def SPECIAL_OPCODES_def init_eval)

text \<open>
  C3: the label pass is a function of the instruction sequence, and running it again on
  the table it has built changes nothing. The table maps the \<open>i\<close>-th element of the
  distinct targets of the Address-format instructions, taken in the order of their
  first occurrence from address 0 upward, to \<^verbatim>\<open>'label%04X' % i\<close>, counting from 0;
  for a decoded program (at most 0x800 words) that name ends in exactly four upper-case
  hexadecimal digits, zero-padded.
\<close>

theorem assign_labels_first_seen:
  "distinct (first_seen (targets is))
   \<and> set (first_seen (targets is)) = set (targets is)
   \<and> dom (assign_labels is Map.empty) = set (first_seen (targets is))
   \<and> (\<forall>i < length (first_seen (targets is)).
         assign_labels is Map.empty (first_seen (targets is) ! i)
           = Some (''label'' @ format_X 4 (int i)))
   \<and> assign_labels is (assign_labels is Map.empty) = assign_labels is Map.empty
   \<and> (decode_words 0 ws = Inr is \<longrightarrow>
        (\<forall>i < length (first_seen (targets is)).
           format_X 4 (int i) = [hex_digit (i div 4096), hex_digit (i div 256 mod 16),
                                 hex_digit (i div 16 mod 16), hex_digit (i mod 16)]))"
proof -
  have digits: "format_X 4 (int i) = [hex_digit (i div 4096), hex_digit (i div 256 mod 16),
                                     hex_digit (i div 16 mod 16), hex_digit (i mod 16)]"
    if dec: "decode_words 0 ws = Inr is" and i: "i < length (first_seen (targets is))" for i
  proof -
    have "length (first_seen (targets is)) \<le> length (targets is)"
      by (rule length_first_seen)
    also have "\<dots> \<le> length is" by (simp add: targets_def)
    also have "\<dots> \<le> 0x800" using dec by (rule decode_words_length_bound)
    finally have "i < 65536" using i by simp
    then show ?thesis by (rule format_X_four_digits)
  qed
  show ?thesis
    using digits
    by (simp add: distinct_first_seen set_first_seen dom_assign_labels assign_labels_numbers
          assign_labels_idem)
qed

theorem assign_labels_first_seen_witness:
  "\<exists>prog. decode_words 0 [0x2805, 0x2000, 0x2805] = Inr prog
     \<and> first_seen (targets prog) = [Some 5, Some 0]
     \<and> assign_labels prog Map.empty (Some 5) = Some ''label0000''
     \<and> assign_labels prog Map.empty (Some 0) = Some ''label0001''
     \<and> format_X 4 (int 1) = ''0001''"
proof -
  define prog where "prog =
     [\<lparr>address = 0, word = 0x2805 :: 16 word, first = Some (5::int), second = None :: int option,
       type = ADDRESS, name = Some ''JMP''\<rparr>,
      \<lparr>address = 1, word = 0x2000, first = Some 0, second = None,
       type = ADDRESS, name = Some ''CALL''\<rparr>,
      \<lparr>address = 2, word = 0x2805, first = Some 5, second = None,
       type = ADDRESS, name = Some ''JMP''\<rparr>]"
  have dec: "decode_words 0 [0x2805, 0x2000, 0x2805] = Inr prog"
    unfolding prog_def by (rule decode_jmp_call_jmp)
  have seen: "first_seen (targets prog) = [Some 5, Some 0]"
    by (simp add: prog_def targets_def)
  note inst = assign_labels_first_seen [of prog "[0x2805, 0x2000, 0x2805]"]
  from inst seen have "assign_labels prog Map.empty ([Some 5, Some 0] ! 0)
      = Some (''label'' @ format_X 4 (int 0))" by auto
  then have l0: "assign_labels prog Map.empty (Some 5) = Some ''label0000''"
    by (simp add: format_X_examples)
  from inst seen have "assign_labels prog Map.empty ([Some 5, Some 0] ! 1)
      = Some (''label'' @ format_X 4 (int 1))" by auto
  then have l1: "assign_labels prog Map.empty (Some 0) = Some ''label0001''"
    by (simp add: format_X_examples)
  have "format_X 4 (int 1) = ''0001''"
    using inst dec seen by (auto simp: hex_digit_def)
  with dec seen l0 l1 show ?thesis by blast
qed

text \<open>
  C4: the keys of the table the label pass builds for a decoded program are exactly the
  11-bit target operands of its Address-format instructions, wherever they stand
  (before or after the target); no other address gets a label. The constructor with
  labels enabled stores that table.
\<close>

theorem label_table_keys:
  "(decode_words 0 ws = Inr is \<longrightarrow>
      (k \<in> dom (assign_labels is Map.empty))
        = (\<exists>j < length ws. \<exists>i. decode_word (int j) (ws ! j) = Inr i \<and> type i = ADDRESS
                               \<and> k = Some (uint (ws ! j AND 0x7FF))))
   \<and> (Disassembler_init f True = Inr d \<longrightarrow>
        decode_words 0 (words d) = Inr (instructions d)
        \<and> labels d = assign_labels (instructions d) Map.empty)"
proof -
  have keys: "(k \<in> dom (assign_labels is Map.empty))
        = (\<exists>j < length ws. \<exists>i. decode_word (int j) (ws ! j) = Inr i \<and> type i = ADDRESS
                               \<and> k = Some (uint (ws ! j AND 0x7FF)))"
    if dec: "decode_words 0 ws = Inr is"
  proof
    assume "k \<in> dom (assign_labels is Map.empty)"
    then obtain i where i: "i \<in> set is" "type i = ADDRESS" "k = first i"
      by (auto simp: dom_assign_labels set_targets)
    from decoded_instruction_fields [OF dec i(1)] obtain j where
      j: "j < length ws" "decode_word (int j) (ws ! j) = Inr i" by blast
    from target_of_address [OF j(2) i(2)] i(3) have "k = Some (uint (ws ! j AND 0x7FF))"
      by simp
    with j i(2) show "\<exists>j < length ws. \<exists>i. decode_word (int j) (ws ! j) = Inr i
        \<and> type i = ADDRESS \<and> k = Some (uint (ws ! j AND 0x7FF))" by blast
  next
    assume "\<exists>j < length ws. \<exists>i. decode_word (int j) (ws ! j) = Inr i \<and> type i = ADDRESS
        \<and> k = Some (uint (ws ! j AND 0x7FF))"
    then obtain j i where j: "j < length ws" "decode_word (int j) (ws ! j) = Inr i"
      "type i = ADDRESS" "k = Some (uint (ws ! j AND 0x7FF))" by blast
    from decode_words_nth [OF dec] j(1,2) have "length is = length ws" "is ! j = i"
      by auto
    with j(1) have "i \<in> set is" by (auto simp: in_set_conv_nth)
    moreover from target_of_address [OF j(2,3)] j(4) have "k = first i" by simp
    ultimately show "k \<in> dom (assign_labels is Map.empty)"
      using j(3) by (auto simp: dom_assign_labels set_targets)
  qed
  show ?thesis using keys Disassembler_init_Inr [of f True d] by simp
qed

theorem label_table_keys_witness:
  "\<exists>prog. decode_words 0 [0x2802, 0x0000, 0x2000] = Inr prog
     \<and> Some 2 \<in> dom (assign_labels prog Map.empty)
     \<and> Some 0 \<in> dom (assign_labels prog Map.empty)
     \<and> Some 1 \<notin> dom (assign_labels prog Map.empty)"
proof -
  define ws :: "16 word list" where "ws = [0x2802, 0x0000, 0x2000]"
  obtain prog where dec: "decode_words 0 ws = Inr prog"
    unfolding ws_def using decode_jmp_nop_call by blast
  have d0: "\<exists>i. decode_word (int 0) (ws ! 0) = Inr i \<and> type i = ADDRESS"
    by (simp add: ws_def decode_word_chain group_defs ADDRESS_OPCODES_def init_eval)
  have d1: "\<exists>i. decode_word (int 1) (ws ! 1) = Inr i \<and> type i = SPECIAL"
    by (simp add: ws_def decode_word_chain group_defs SPECIAL_OPCODES_def init_eval)
  have d2: "\<exists>i. decode_word (int 2) (ws ! 2) = Inr i \<and> type i = ADDRESS"
    by (simp add: ws_def decode_word_chain group_defs ADDRESS_OPCODES_def init_eval)
  have t0: "uint (ws ! 0 AND 0x7FF) = 2" and t2: "uint (ws ! 2 AND 0x7FF) = 0"
    and len: "length ws = 3"
    by (simp_all add: ws_def)
  have k2: "Some 2 \<in> dom (assign_labels prog Map.empty)"
    using label_table_keys [of ws prog "Some 2"] dec d0 t0 len
    by (metis zero_less_numeral)
  have k0: "Some 0 \<in> dom (assign_labels prog Map.empty)"
  proof -
    have "(2::nat) < length ws" by (simp add: len)
    then show ?thesis
      using label_table_keys [of ws prog "Some 0"] dec d2 t2 by metis
  qed
  have k1: "Some 1 \<notin> dom (assign_labels prog Map.empty)"
  proof
    assume "Some 1 \<in> dom (assign_labels prog Map.empty)"
    with label_table_keys [of ws prog "Some 1"] dec
    have "\<exists>j < length ws. \<exists>i. decode_word (int j) (ws ! j) = Inr i \<and> type i = ADDRESS
            \<and> Some (1::int) = Some (uint (ws ! j AND 0x7FF))" by blast
    then obtain j i where
      j: "j < length ws" "decode_word (int j) (ws ! j) = Inr i" "type i = ADDRESS"
      "uint (ws ! j AND 0x7FF) = 1" by auto
    from j(1) len consider "j = 0" | "j = 1" | "j = 2" by linarith
    then show False
    proof cases
      case 1 with j(4) t0 show False by simp
    next
      case 2 with j(2,3) d1 show False by auto
    next
      case 3 with j(4) t2 show False by simp
    qed
  qed
  from dec k2 k0 k1 show ?thesis unfolding ws_def by blast
qed

text \<open>
  C10: after construction with labels enabled, the target of every Address-format
  instruction is a key of the label table, no instruction's formatting raises a
  missing-key error, every instruction formats to a line and the whole output is
  produced.
\<close>

theorem address_operands_labelled:
  assumes "Disassembler_init f True = Inr d"
  shows "(\<forall>i \<in> set (instructions d). type i = ADDRESS \<longrightarrow> first i \<in> dom (labels d))
     \<and> (\<forall>i \<in> set (instructions d). \<forall>k. format_operands d i \<noteq> Inl (KeyError k))
     \<and> (\<forall>j < length (instructions d).
           \<exists>line. format_instruction d (int j) (instructions d ! j) = Inr line)
     \<and> (\<exists>out. generate_output d = Inr out)"
proof -
  from Disassembler_init_Inr [OF assms]
  have dec: "decode_words 0 (words d) = Inr (instructions d)"
    and lab: "labels d = assign_labels (instructions d) Map.empty"
    and en: "has_labels d" by simp_all
  have labelled: "first i \<in> dom (labels d)"
    if "i \<in> set (instructions d)" "type i = ADDRESS" for i
    using that by (auto simp: lab dom_assign_labels set_targets)
  have ok: "\<exists>s. format_operands d i = Inr s" if "i \<in> set (instructions d)" for i
  proof -
    from decoded_instruction_fields [OF dec that] obtain j where
      "decode_word (int j) (words d ! j) = Inr i" by blast
    from decode_word_fields [OF this] show ?thesis
      using labelled [OF that] en by (intro format_operands_ok [of i "words d ! j"]) simp_all
  qed
  have no_key_error: "format_operands d i \<noteq> Inl (KeyError k)"
    if "i \<in> set (instructions d)" for i k
    using ok [OF that] by auto
  have lines: "\<exists>line. format_instruction d (int j) (instructions d ! j) = Inr line"
    if "j < length (instructions d)" for j
    using that ok by (intro format_instruction_ok) simp
  have "\<exists>out. generate_output d = Inr out"
    unfolding generate_output_def using ok by (intro generate_lines_ok) blast
  with labelled no_key_error lines show ?thesis by blast
qed

theorem address_operands_labelled_witness:
  "\<exists>d. Disassembler_init \<lparr>path = ''rom.bin'', is_file = True, st_size = 4,
                            source_bytes = [0x00, 0x00, 0x00, 0x20]\<rparr> True = Inr d
      \<and> map type (instructions d) = [SPECIAL, ADDRESS]
      \<and> map first (instructions d) = [None, Some 0]
      \<and> labels d (Some 0) = Some ''label0000''
      \<and> (\<exists>out. generate_output d = Inr out)"
proof -
  obtain d where d: "Disassembler_init \<lparr>path = ''rom.bin'', is_file = True, st_size = 4,
      source_bytes = [0x00, 0x00, 0x00, 0x20]\<rparr> True = Inr d"
    by (simp add: Disassembler_init_def load_nop_call decode_nop decode_call)
  then have "map type (instructions d) = [SPECIAL, ADDRESS]"
    "map first (instructions d) = [None, Some 0]"
    "labels d (Some 0) = Some ''label0000''"
    by (auto simp: Disassembler_init_def load_nop_call decode_nop decode_call
          assign_labels_def format_X_examples)
  moreover from address_operands_labelled [OF d]
  have "\<exists>out. generate_output d = Inr out" by blast
  ultimately show ?thesis using d by (intro exI [of _ d]) simp
qed

end
